theory Spec2Isabelle
  imports Main
begin

section \<open>Cells, labels and frames\<close>

text \<open>
  A cell of a pandas frame in \<^verbatim>\<open>Main.py\<close> is a Python \<^verbatim>\<open>str\<close>, the float
  \<^verbatim>\<open>np.nan\<close> that the cleaning code writes, or the \<^verbatim>\<open>None\<close> with which
  \<^verbatim>\<open>pd.DataFrame(table_data)\<close> pads the short rows of a ragged list of
  lists. A \<open>char\<close> stands for one code point below 256.

  A frame carries its row labels (\<^verbatim>\<open>df.index\<close>), its column labels
  (\<^verbatim>\<open>df.columns\<close>) and its rows; \<^verbatim>\<open>iloc\<close> is positional. Column labels are
  positions until line 192 assigns the captured header row to them.
\<close>

datatype cell = Str string | NaN | NoneV

datatype col_label = Pos nat | Name cell

datatype error = IndexError | KeyError | ValueError

record dataframe =
  index :: "nat list"
  columns :: "col_label list"
  rows :: "cell list list"

record path =
  parent :: string
  name :: string

text \<open>\<^verbatim>\<open>pd.notna\<close>: both \<^verbatim>\<open>np.nan\<close> and \<^verbatim>\<open>None\<close> are missing.\<close>

fun notna :: "cell \<Rightarrow> bool" where
  "notna (Str s) = True"
| "notna NaN = False"
| "notna NoneV = False"

text \<open>Python's \<^verbatim>\<open>str(x)\<close> on a cell.\<close>

fun py_str :: "cell \<Rightarrow> string" where
  "py_str (Str s) = s"
| "py_str NaN = ''nan''"
| "py_str NoneV = ''None''"

text \<open>
  \<^verbatim>\<open>str.strip()\<close> removes leading and trailing whitespace; these are the code points
  below 256 for which \<^verbatim>\<open>str.isspace\<close> holds.
\<close>

definition py_isspace :: "char \<Rightarrow> bool" where
  "py_isspace c = (c \<in> set [CHR 0x09, CHR 0x0A, CHR 0x0B, CHR 0x0C, CHR 0x0D,
                             CHR 0x1C, CHR 0x1D, CHR 0x1E, CHR 0x1F, CHR 0x20,
                             CHR 0x85, CHR 0xA0])"

definition strip :: "string \<Rightarrow> string" where
  "strip s = rev (dropWhile py_isspace (rev (dropWhile py_isspace s)))"

text \<open>\<^verbatim>\<open>s.replace('(', '-')\<close>: every occurrence.\<close>

definition replace_paren :: "string \<Rightarrow> string" where
  "replace_paren s = map (\<lambda>c. if c = CHR ''('' then CHR ''-'' else c) s"

subsection \<open>Frame construction (line 47)\<close>

text \<open>
  \<^verbatim>\<open>pd.DataFrame(table_data)\<close> on a list of lists of strings: as many columns as
  the longest row, shorter rows padded with \<^verbatim>\<open>None\<close>, row and column labels
  \<open>0, 1, ...\<close>.
\<close>

definition DataFrame :: "string list list \<Rightarrow> dataframe" where
  "DataFrame table_data =
     (let k = foldr max (map length table_data) 0 in
      \<lparr>index = [0..<length table_data],
       columns = map Pos [0..<k],
       rows = map (\<lambda>r. map Str r @ replicate (k - length r) NoneV) table_data\<rparr>)"

subsection \<open>The pandas operations used by \<^verbatim>\<open>clean_tables\<close>\<close>

text \<open>Line 133, \<^verbatim>\<open>df.astype(object).replace("", np.nan)\<close>.\<close>

definition replace_blank :: "dataframe \<Rightarrow> dataframe" where
  "replace_blank df =
     df\<lparr>rows := map (map (\<lambda>c. if c = Str [] then NaN else c)) (rows df)\<rparr>"

text \<open>
  Lines 135 and 166, \<^verbatim>\<open>dropna(axis=1, how="all")\<close>: a column stays when some row
  has a present cell in it; the labels of the surviving columns are kept.
\<close>

definition dropna_cols :: "dataframe \<Rightarrow> dataframe" where
  "dropna_cols df =
     (let keep = filter (\<lambda>j. list_ex (\<lambda>r. notna (r ! j)) (rows df))
                        [0..<length (columns df)]
      in df\<lparr>columns := map (nth (columns df)) keep,
             rows := map (\<lambda>r. map (nth r) keep) (rows df)\<rparr>)"

text \<open>
  Line 137, \<^verbatim>\<open>dropna(axis=0, how="all")\<close>: a row stays when it has a present cell;
  the surviving rows keep their labels.
\<close>

definition dropna_rows :: "dataframe \<Rightarrow> dataframe" where
  "dropna_rows df =
     (let kept = filter (\<lambda>lr. list_ex notna (snd lr)) (zip (index df) (rows df))
      in df\<lparr>index := map fst kept, rows := map snd kept\<rparr>)"

text \<open>\<^verbatim>\<open>reset_index(drop=True)\<close> and \<^verbatim>\<open>df.iloc[1:]\<close>.\<close>

definition reset_index :: "dataframe \<Rightarrow> dataframe" where
  "reset_index df = df\<lparr>index := [0..<length (rows df)]\<rparr>"

definition iloc_from1 :: "dataframe \<Rightarrow> dataframe" where
  "iloc_from1 df = df\<lparr>index := drop 1 (index df), rows := drop 1 (rows df)\<rparr>"

text \<open>
  Lines 54 to 68. \<^verbatim>\<open>df.iloc[0, 1]\<close> raises \<^verbatim>\<open>IndexError\<close> when the frame has no
  row or fewer than two columns.
\<close>

definition title_extraction :: "dataframe \<Rightarrow> error + string" where
  "title_extraction df =
     (if rows df = [] \<or> length (columns df) < 2 then Inl IndexError
      else (case hd (rows df) ! 1 of
              Str title \<Rightarrow> Inr (if title \<noteq> [] then title else ''No Title'')
            | _ \<Rightarrow> Inr ''No Title''))"

text \<open>
  Lines 148 to 160, the body of the inner loop for one column pair \<open>(j, j + 1)\<close> of
  one row. Line 153 assigns a cell to itself.
\<close>

definition is_percent :: "cell \<Rightarrow> bool" where
  "is_percent c = (strip (py_str c) = ''%'' \<or> strip (py_str c) = ''%)'')"

definition merge_pair :: "nat \<Rightarrow> cell list \<Rightarrow> cell list" where
  "merge_pair j r =
     (let r1 = (if r ! j = Str [] then r[j := NaN] else r);
          r2 = (if strip (py_str (r1 ! j)) = ''$'' then r1[j := NaN] else r1)
      in if is_percent (r2 ! (j + 1)) then
           (let r3 = r2[j := Str (py_str (r2 ! j) @ '' %'')];
                r4 = r3[j + 1 := NaN]
            in if CHR ''('' \<in> set (py_str (r4 ! j))
               then r4[j := Str (replace_paren (py_str (r4 ! j)))] else r4)
         else r2)"

text \<open>Lines 146 to 160: every row, the pairs from left to right, in one pass.\<close>

definition merge_row :: "nat \<Rightarrow> cell list \<Rightarrow> cell list" where
  "merge_row ncols r = fold merge_pair [0..<ncols - 1] r"

definition merge_pass :: "dataframe \<Rightarrow> dataframe" where
  "merge_pass df = df\<lparr>rows := map (merge_row (length (columns df))) (rows df)\<rparr>"

text \<open>
  Line 164: each row becomes its missing cells, as \<^verbatim>\<open>np.nan\<close>, followed by its
  present cells in their order; the new frame has the old row labels and the column
  labels \<open>0, 1, ...\<close>. On a frame without rows or without columns \<^verbatim>\<open>apply\<close>
  returns a copy of the frame.
\<close>

definition shift_right_row :: "cell list \<Rightarrow> cell list" where
  "shift_right_row r =
     replicate (length (filter (\<lambda>c. \<not> notna c) r)) NaN @ filter notna r"

definition shift_right :: "dataframe \<Rightarrow> dataframe" where
  "shift_right df =
     (if rows df = [] \<or> columns df = [] then df
      else df\<lparr>columns := map Pos [0..<length (columns df)],
              rows := map shift_right_row (rows df)\<rparr>)"

text \<open>Line 190: the present cells first, the missing ones after them.\<close>

definition shift_left_row :: "cell list \<Rightarrow> cell list" where
  "shift_left_row r =
     filter notna r @ replicate (length (filter (\<lambda>c. \<not> notna c) r)) NaN"

definition shift_left :: "dataframe \<Rightarrow> dataframe" where
  "shift_left df =
     (if rows df = [] \<or> columns df = [] then df
      else df\<lparr>columns := map Pos [0..<length (columns df)],
              rows := map shift_left_row (rows df)\<rparr>)"

text \<open>
  Lines 168 to 173: the present values of row 0; \<^verbatim>\<open>count\<close> is their number and
  \<^verbatim>\<open>non_nan_val\<close> the last of them. \<^verbatim>\<open>df.iloc[0]\<close> raises on a frame without rows.
\<close>

definition row0_present :: "dataframe \<Rightarrow> error + cell list" where
  "row0_present df =
     (case rows df of [] \<Rightarrow> Inl IndexError | r # _ \<Rightarrow> Inr (filter notna r))"

text \<open>
  Lines 178 to 181: \<^verbatim>\<open>df.iloc[1]\<close> raises \<^verbatim>\<open>IndexError\<close> on a frame with one row;
  assigning a list longer than the column count to a row raises \<^verbatim>\<open>ValueError\<close>
  (\<^verbatim>\<open>[np.nan] * n\<close> is empty for negative \<open>n\<close>).
\<close>

definition merge_into_row1 :: "cell \<Rightarrow> dataframe \<Rightarrow> error + dataframe" where
  "merge_into_row1 single_value df =
     (if length (rows df) < 2 then Inl IndexError
      else
        (let second_row_values = filter notna (rows df ! 1) @ [single_value];
             new_row = second_row_values @
                       replicate (length (columns df) - length second_row_values) NaN
         in if length new_row \<noteq> length (columns df) then Inl ValueError
            else Inr (df\<lparr>rows := (rows df)[1 := new_row]\<rparr>)))"

text \<open>
  Line 183, \<^verbatim>\<open>df.drop(index=i)\<close>: removes the rows whose label is \<open>i\<close>, and raises
  \<^verbatim>\<open>KeyError\<close> when no row has that label.
\<close>

definition drop_index :: "nat \<Rightarrow> dataframe \<Rightarrow> error + dataframe" where
  "drop_index i df =
     (if i \<notin> set (index df) then Inl KeyError
      else
        (let kept = filter (\<lambda>lr. fst lr \<noteq> i) (zip (index df) (rows df))
         in Inr (df\<lparr>index := map fst kept, rows := map snd kept\<rparr>)))"

text \<open>
  Line 192, \<^verbatim>\<open>df.columns = stored_columns\<close>: the new labels must be as many as the
  columns, or pandas raises \<^verbatim>\<open>ValueError\<close>.
\<close>

definition set_columns :: "cell list \<Rightarrow> dataframe \<Rightarrow> error + dataframe" where
  "set_columns stored_columns df =
     (if length stored_columns \<noteq> length (columns df) then Inl ValueError
      else Inr (df\<lparr>columns := map Name stored_columns\<rparr>))"

section \<open>The store\<close>

text \<open>
  Frames are Python objects: \<^verbatim>\<open>clean_tables\<close> receives a reference to the frame
  that \<^verbatim>\<open>all_tables\<close> also holds, and several of its statements update a frame in
  place (\<^verbatim>\<open>inplace=True\<close>, \<^verbatim>\<open>df.iloc[...] = ...\<close>, \<^verbatim>\<open>df.columns = ...\<close>). The store
  is the list of the frames allocated so far and a reference is a position in it. A
  statement that builds a new frame allocates; a statement that updates in place
  overwrites the frame at the reference.
\<close>

type_synonym ref = nat

type_synonym heap = "dataframe list"

definition alloc :: "dataframe \<Rightarrow> heap \<Rightarrow> ref \<times> heap" where
  "alloc v h = (length h, h @ [v])"

definition inplace :: "(dataframe \<Rightarrow> dataframe) \<Rightarrow> ref \<Rightarrow> heap \<Rightarrow> heap" where
  "inplace f a h = h[a := f (h ! a)]"

section \<open>\<^verbatim>\<open>clean_tables\<close>\<close>

text \<open>
  Lines 141 and 142: when the title is not the sentinel, \<^verbatim>\<open>df\<close> is rebound to a new
  frame without row 0, its rows relabelled from 0.
\<close>

definition drop_title_row :: "string \<Rightarrow> ref \<Rightarrow> heap \<Rightarrow> ref \<times> heap" where
  "drop_title_row title df h =
     (if title \<noteq> ''No Title'' then alloc (reset_index (iloc_from1 (h ! df))) h
      else (df, h))"

text \<open>
  Lines 130 to 166: the deep copy, blank replacement, the two \<^verbatim>\<open>dropna\<close> calls, title
  extraction with the removal of the title row, the merge pass, the shift to the right
  and the second column \<^verbatim>\<open>dropna\<close>. The local variable \<^verbatim>\<open>df\<close> is rebound at lines
  130, 133, 142 and 164. The result carries the title, the last value of the loop
  variable \<^verbatim>\<open>i\<close> of line 146 (which line 183 reads) and the current \<^verbatim>\<open>df\<close>.
\<close>

definition clean_prefix :: "ref \<Rightarrow> heap \<Rightarrow> (error + (string \<times> nat \<times> ref)) \<times> heap" where
  "clean_prefix df_origin h0 =
     (let (df, h) = alloc (h0 ! df_origin) h0;
          (df, h) = alloc (replace_blank (h ! df)) h;
          h = inplace dropna_cols df h;
          h = inplace dropna_rows df h
      in case title_extraction (h ! df) of
           Inl e \<Rightarrow> (Inl e, h)
         | Inr title \<Rightarrow>
             (let (df, h) = drop_title_row title df h;
                  i = length (rows (h ! df)) - 1;
                  h = inplace merge_pass df h;
                  (df, h) = alloc (shift_right (h ! df)) h;
                  h = inplace dropna_cols df h
              in (Inr (title, i, df), h)))"

text \<open>
  Lines 168 to 185. Line 183 drops the row whose label is the value that the loop
  variable \<^verbatim>\<open>i\<close> of line 146 was left with.
\<close>

definition single_value_repair :: "nat \<Rightarrow> ref \<Rightarrow> heap \<Rightarrow> (error + ref) \<times> heap" where
  "single_value_repair i df h =
     (case row0_present (h ! df) of
        Inl e \<Rightarrow> (Inl e, h)
      | Inr present \<Rightarrow>
          if length present = 1 then
            (case merge_into_row1 (last present) (h ! df) of
               Inl e \<Rightarrow> (Inl e, h)
             | Inr d1 \<Rightarrow>
                 (let h = h[df := d1] in
                  case drop_index i (h ! df) of
                    Inl e \<Rightarrow> (Inl e, h)
                  | Inr d2 \<Rightarrow>
                      (let h = h[df := d2];
                           h = inplace reset_index df h;
                           (df, h) = alloc (reset_index (iloc_from1 (h ! df))) h
                       in (Inr df, h))))
          else (Inr df, h))"

text \<open>Lines 187 to 193.\<close>

definition capture_header :: "ref \<Rightarrow> heap \<Rightarrow> (error + ref) \<times> heap" where
  "capture_header df h =
     (case rows (h ! df) of
        [] \<Rightarrow> (Inl IndexError, h)
      | stored_columns # _ \<Rightarrow>
          (let (df, h) = alloc (shift_left (h ! df)) h in
           case set_columns stored_columns (h ! df) of
             Inl e \<Rightarrow> (Inl e, h)
           | Inr d \<Rightarrow>
               (let h = h[df := d];
                    (df, h) = alloc (reset_index (iloc_from1 (h ! df))) h
                in (Inr df, h))))"

text \<open>Lines 130 to 193: the title and the frame that line 195 hands to \<^verbatim>\<open>store_data\<close>.\<close>

definition normalize_table :: "ref \<Rightarrow> heap \<Rightarrow> (error + (string \<times> ref)) \<times> heap" where
  "normalize_table df_origin h0 =
     (case clean_prefix df_origin h0 of
        (Inl e, h) \<Rightarrow> (Inl e, h)
      | (Inr (title, i, df), h) \<Rightarrow>
          (case single_value_repair i df h of
             (Inl e, h) \<Rightarrow> (Inl e, h)
           | (Inr df, h) \<Rightarrow>
               (case capture_header df h of
                  (Inl e, h) \<Rightarrow> (Inl e, h)
                | (Inr df, h) \<Rightarrow> (Inr (title, df), h))))"

section \<open>\<^verbatim>\<open>store_data\<close>\<close>

record tidy =
  filename :: string
  label :: cell
  tablename :: string
  column_name :: col_label
  val :: cell

text \<open>
  The sink is the file \<^verbatim>\<open>final_result.csv\<close>, a list of lines: a header line with
  the column names of the written frame, or one record.
\<close>

datatype line = Header "string list" | Row tidy

text \<open>
  Lines 84 to 101. \<^verbatim>\<open>df.iloc[row_idx, 0]\<close> raises \<^verbatim>\<open>IndexError\<close> on a frame
  without columns.
\<close>

definition structured_data :: "path \<Rightarrow> string \<Rightarrow> dataframe \<Rightarrow> error + tidy list" where
  "structured_data file_path title df =
     (if rows df \<noteq> [] \<and> columns df = [] then Inl IndexError
      else Inr (concat (map (\<lambda>r. map (\<lambda>col_idx.
                  \<lparr>filename = name file_path, label = r ! 0, tablename = title,
                   column_name = columns df ! col_idx, val = r ! col_idx\<rparr>)
                  [1..<length (columns df)]) (rows df))))"

text \<open>
  Lines 103 to 107. The frame built from the list of dicts has the five keys as its
  columns, and no column when the list is empty. Mode \<^verbatim>\<open>'w'\<close> truncates the file
  and \<^verbatim>\<open>header=True\<close> writes the column names first; mode \<^verbatim>\<open>'a'\<close> appends and
  \<^verbatim>\<open>header=False\<close> writes no column names.
\<close>

definition to_csv :: "tidy list \<Rightarrow> bool \<Rightarrow> line list \<Rightarrow> line list" where
  "to_csv structured first_run sink =
     (let result_columns = (if structured = [] then []
            else [''filename'', ''label'', ''tablename'', ''column name'', ''value''])
      in if first_run then Header result_columns # map Row structured
         else sink @ map Row structured)"

definition store_data :: "path \<Rightarrow> string \<Rightarrow> dataframe \<Rightarrow> bool \<Rightarrow> line list \<Rightarrow> error + line list" where
  "store_data file_path title df first_run sink =
     (case structured_data file_path title df of
        Inl e \<Rightarrow> Inl e
      | Inr structured \<Rightarrow> Inr (to_csv structured first_run sink))"

text \<open>Lines 110 to 195. An exception leaves the sink as it was.\<close>

definition clean_tables ::
  "ref \<Rightarrow> path \<Rightarrow> bool \<Rightarrow> heap \<times> line list \<Rightarrow> error option \<times> (heap \<times> line list)" where
  "clean_tables df_origin file_path first_run w =
     (case normalize_table df_origin (fst w) of
        (Inl e, h) \<Rightarrow> (Some e, (h, snd w))
      | (Inr (title, df), h) \<Rightarrow>
          (case store_data file_path title (h ! df) first_run (snd w) of
             Inl e \<Rightarrow> (Some e, (h, snd w))
           | Inr sink \<Rightarrow> (None, (h, sink))))"

section \<open>The script\<close>

text \<open>
  Lines 37 to 49 on the tables of one parsed document, each a list of rows of cell
  texts: every table becomes a frame and \<^verbatim>\<open>all_tables\<close> gets the pair of the frame
  and the file path. Reading and parsing the HTML is outside the model.
\<close>

definition extract_data ::
  "path \<Rightarrow> string list list list \<Rightarrow> heap \<times> (ref \<times> path) list \<Rightarrow> heap \<times> (ref \<times> path) list" where
  "extract_data file_path tables st =
     fold (\<lambda>table_data (h, all_tables).
             (let (df, h') = alloc (DataFrame table_data) h
              in (h', all_tables @ [(df, file_path)]))) tables st"

text \<open>
  Lines 214 to 219. There is no \<^verbatim>\<open>try\<close> in the script: an exception raised by
  \<^verbatim>\<open>clean_tables\<close> ends the loop and the run. The first component of the result lists
  the calls made, each with the path and the \<^verbatim>\<open>first_run\<close> flag it was given.
\<close>

fun cleaning_loop ::
  "bool \<Rightarrow> (ref \<times> path) list \<Rightarrow> heap \<times> line list \<Rightarrow>
     (path \<times> bool) list \<times> error option \<times> (heap \<times> line list)" where
  "cleaning_loop first_run [] w = ([], None, w)"
| "cleaning_loop first_run (table # rest) w =
     (case clean_tables (fst table) (snd table) first_run w of
        (Some e, w') \<Rightarrow> ([(snd table, first_run)], Some e, w')
      | (None, w') \<Rightarrow>
          (case cleaning_loop False rest w' of
             (calls, r) \<Rightarrow> ((snd table, first_run) # calls, r)))"

text \<open>
  Lines 207 to 219 on the parsed documents of the folder: all documents are extracted
  first, then every table is cleaned, starting with \<^verbatim>\<open>first_run = True\<close>.
\<close>

definition run ::
  "(path \<times> string list list list) list \<Rightarrow> line list \<Rightarrow>
     (path \<times> bool) list \<times> error option \<times> (heap \<times> line list)" where
  "run docs sink =
     (case fold (\<lambda>doc. extract_data (fst doc) (snd doc)) docs ([], []) of
        (h, all_tables) \<Rightarrow> cleaning_loop True all_tables (h, sink))"

section \<open>Notions used to state the properties\<close>

text \<open>The components of the result of a loop or a run.\<close>

definition calls_of ::
  "(path \<times> bool) list \<times> error option \<times> (heap \<times> line list) \<Rightarrow> (path \<times> bool) list" where
  "calls_of r = fst r"

definition error_of ::
  "(path \<times> bool) list \<times> error option \<times> (heap \<times> line list) \<Rightarrow> error option" where
  "error_of r = fst (snd r)"

definition heap_of ::
  "(path \<times> bool) list \<times> error option \<times> (heap \<times> line list) \<Rightarrow> heap" where
  "heap_of r = fst (snd (snd r))"

definition sink_of ::
  "(path \<times> bool) list \<times> error option \<times> (heap \<times> line list) \<Rightarrow> line list" where
  "sink_of r = snd (snd (snd r))"

text \<open>The records of a sink, in the order of its lines.\<close>

definition records_of :: "line list \<Rightarrow> tidy list" where
  "records_of sink = concat (map (\<lambda>l. case l of Row t \<Rightarrow> [t] | Header _ \<Rightarrow> []) sink)"

text \<open>
  A pandas frame is rectangular: one label for each row, and in every row one cell
  for each column.
\<close>

definition rect :: "dataframe \<Rightarrow> bool" where
  "rect df = (length (index df) = length (rows df) \<and>
              list_all (\<lambda>r. length r = length (columns df)) (rows df))"

text \<open>The grid of the end-to-end scenario, and the records written for it.\<close>

definition q1_grid :: "string list list" where
  "q1_grid =
     [['''', ''Q1 Report''], [''Revenue'', ''$'', ''100''], [''Growth'', ''12'', ''%'']]"

definition q1_records :: "tidy list" where
  "q1_records =
     records_of (sink_of (run [(\<lparr>parent = ''reports'', name = ''q1.html''\<rparr>, [q1_grid])] []))"

text \<open>The frame that a reference returned with a store denotes.\<close>

definition frame_after :: "ref \<times> heap \<Rightarrow> dataframe" where
  "frame_after x = snd x ! fst x"

text \<open>
  A grid with a title row, a row with the single value "USD", a row with two values and
  two full rows.
\<close>

definition usd_grid :: "string list list" where
  "usd_grid =
     [['''', ''T'', ''''], [''USD''], [''h1'', ''h2''], [''a'', ''1'', ''2''], [''b'', ''3'', ''4'']]"

text \<open>
  One document with two tables: the first has only a blank cell, the second is a table
  with a title, a header row and a data row.
\<close>

definition blank_then_table :: "(path \<times> string list list list) list" where
  "blank_then_table =
     [(\<lparr>parent = ''reports'', name = ''two.html''\<rparr>,
       [[['''']], [['''', ''Costs''], [''Item'', ''EUR''], [''Rent'', ''7'']]])]"

text \<open>A frame whose cell at row 0, column 1 is the text "No Title".\<close>

definition no_title_frame :: dataframe where
  "no_title_frame = DataFrame [[''Region'', ''No Title''], [''North'', ''5'']]"

text \<open>
  One document with two tables: the first has a title row and a header row and no data
  row, the second is the scenario grid.
\<close>

definition no_record_first :: "(path \<times> string list list list) list" where
  "no_record_first =
     [(\<lparr>parent = ''reports'', name = ''two.html''\<rparr>,
       [[['''', ''T''], [''h1'', ''h2'']], q1_grid])]"

text \<open>
  In a row padded at line 47 the \<^verbatim>\<open>None\<close> cells come after every text of the row.
\<close>

definition none_at_end :: "cell list \<Rightarrow> bool" where
  "none_at_end r = (\<forall>j k. j < k \<and> k < length r \<and> r ! j = NoneV \<longrightarrow> r ! k = NoneV)"

section \<open>Compaction\<close>

text \<open>
  C8. The compaction of line 164, which puts the missing cells of a row first and
  keeps the present cells in their order, gives the same row when applied twice as
  when applied once; so does the frame operation of line 164 as a whole.
\<close>

theorem shift_right_idempotent:
  "shift_right_row (shift_right_row r) = shift_right_row r \<and>
   shift_right (shift_right df) = shift_right df"
proof
  show row: "shift_right_row (shift_right_row r) = shift_right_row r" for r
    by (simp add: shift_right_row_def)
  show "shift_right (shift_right df) = shift_right df"
    by (simp add: shift_right_def row)
qed

section \<open>The end-to-end scenario\<close>

text \<open>
  C1, as stated: the scenario grid, as the only table of one document, with
  \<^verbatim>\<open>first_run = True\<close>, gives two records with table name "Q1 Report", labels
  "Revenue" and "Growth" and values "100" and "12 %". The code writes one record:
  line 187 takes the row "Revenue", "100" as the header.
\<close>

theorem q1_two_records_counterexample:
  "\<not> (length q1_records = 2 \<and>
      map tablename q1_records = [''Q1 Report'', ''Q1 Report''] \<and>
      map label q1_records = [Str ''Revenue'', Str ''Growth''] \<and>
      map val q1_records = [Str ''100'', Str ''12 %''])"
proof -
  have "length q1_records = 1"
    unfolding q1_records_def by code_simp
  then show ?thesis by simp
qed

lemma upt_1_2: "[1..<2] = [1::nat]"
  by (simp add: upt_conv_Cons)

lemma q1_normalized:
  "fst (normalize_table 0 [DataFrame q1_grid]) = Inr (''Q1 Report'', 6) \<and>
   snd (normalize_table 0 [DataFrame q1_grid]) ! 6 =
     \<lparr>index = [0], columns = [Name (Str ''Revenue''), Name (Str ''100'')],
      rows = [[Str ''Growth'', Str ''12 %'']]\<rparr>"
  by code_simp

text \<open>
  C1, amended: for any file path and any previous content of the sink, the run on the
  one document with the scenario grid ends without an exception and leaves in the sink
  the header line and exactly one record: label "Growth", table name "Q1 Report",
  column name "100" (the header row is the row "Revenue", "100"), value "12 %".
\<close>

theorem q1_one_record:
  "error_of (run [(p, [q1_grid])] sink) = None \<and>
   calls_of (run [(p, [q1_grid])] sink) = [(p, True)] \<and>
   sink_of (run [(p, [q1_grid])] sink) =
     [Header [''filename'', ''label'', ''tablename'', ''column name'', ''value''],
      Row \<lparr>filename = name p, label = Str ''Growth'', tablename = ''Q1 Report'',
           column_name = Name (Str ''100''), val = Str ''12 %''\<rparr>]"
proof -
  obtain res h where n: "normalize_table 0 [DataFrame q1_grid] = (res, h)"
    by (cases "normalize_table 0 [DataFrame q1_grid]")
  from q1_normalized n have res: "res = Inr (''Q1 Report'', 6)"
    and d: "h ! 6 = \<lparr>index = [0], columns = [Name (Str ''Revenue''), Name (Str ''100'')],
                      rows = [[Str ''Growth'', Str ''12 %'']]\<rparr>"
    by simp_all
  have s: "store_data p ''Q1 Report'' (h ! 6) True sink =
        Inr [Header [''filename'', ''label'', ''tablename'', ''column name'', ''value''],
                         Row \<lparr>filename = name p, label = Str ''Growth'', tablename = ''Q1 Report'',
                              column_name = Name (Str ''100''), val = Str ''12 %''\<rparr>]"
    unfolding d by (simp add: store_data_def structured_data_def to_csv_def upt_1_2)
  have c: "clean_tables 0 p True ([DataFrame q1_grid], sink) =
             (None, (h, [Header [''filename'', ''label'', ''tablename'', ''column name'', ''value''],
                         Row \<lparr>filename = name p, label = Str ''Growth'', tablename = ''Q1 Report'',
                              column_name = Name (Str ''100''), val = Str ''12 %''\<rparr>]))"
    by (simp add: clean_tables_def n res s)
  have r: "run [(p, [q1_grid])] sink = cleaning_loop True [(0, p)] ([DataFrame q1_grid], sink)"
    by (simp add: run_def extract_data_def alloc_def)
  show ?thesis
    by (simp add: r c calls_of_def error_of_def sink_of_def)
qed

section \<open>The single-value repair\<close>

text \<open>
  C2, evaluated on the code. After the title row is removed, row 0 of the grid holds
  the single value "USD" and there are four rows, so the loop variable of line 146 is
  left at 3. Line 181 puts "h1", "h2", "USD" in row 1; line 183 drops the row labelled
  3, which is the last row "b", "3", "4", and not row 0; line 185 drops row 0. The
  merged row becomes the header and the last row is lost.
\<close>

theorem repair_drops_last_row:
  "fst (normalize_table 0 [DataFrame usd_grid]) = Inr (''T'', 7) \<and>
   snd (normalize_table 0 [DataFrame usd_grid]) ! 7 =
     \<lparr>index = [0],
      columns = [Name (Str ''h1''), Name (Str ''h2''), Name (Str ''USD'')],
      rows = [[Str ''a'', Str ''1'', Str ''2'']]\<rparr>"
  by code_simp

section \<open>Tables that cannot be normalized\<close>

text \<open>
  C3, as stated: a table reduced to no rows is skipped and the remaining tables are
  processed. In the run on a document whose first table has only a blank cell, the
  second table would then be cleaned by a second call and its record written, with no
  exception at the end. The run ends in the first call with \<^verbatim>\<open>IndexError\<close>.
\<close>

theorem blank_table_aborts_run_counterexample:
  "\<not> (error_of (run blank_then_table []) = None \<and>
      length (calls_of (run blank_then_table [])) = 2 \<and>
      records_of (sink_of (run blank_then_table [])) \<noteq> [])"
proof -
  have "error_of (run blank_then_table []) = Some IndexError"
    by code_simp
  then show ?thesis by simp
qed

text \<open>
  C3, amended: when blank replacement and the removal of empty columns and rows leave
  a table without rows, \<^verbatim>\<open>clean_tables\<close> raises \<^verbatim>\<open>IndexError\<close> (from \<^verbatim>\<open>df.iloc[0, 1]\<close> in
  \<^verbatim>\<open>title_extraction\<close>), writes nothing to the sink, and the exception ends the loop of
  lines 215 to 219: no later table is cleaned.
\<close>

theorem no_rows_raises:
  assumes "rows (dropna_rows (dropna_cols (replace_blank (h ! df_origin)))) = []"
  shows "fst (clean_tables df_origin p first_run (h, sink)) = Some IndexError \<and>
         snd (snd (clean_tables df_origin p first_run (h, sink))) = sink \<and>
         cleaning_loop first_run ((df_origin, p) # rest) (h, sink) =
           ([(p, first_run)], Some IndexError,
            snd (clean_tables df_origin p first_run (h, sink)))"
proof -
  have t: "title_extraction (dropna_rows (dropna_cols (replace_blank (h ! df_origin)))) =
             Inl IndexError"
    using assms by (simp add: title_extraction_def)
  have "\<exists>h'. clean_prefix df_origin h = (Inl IndexError, h')"
    by (simp add: clean_prefix_def alloc_def inplace_def t)
  then obtain h' where "clean_prefix df_origin h = (Inl IndexError, h')" ..
  then have "normalize_table df_origin h = (Inl IndexError, h')"
    by (simp add: normalize_table_def)
  then have "clean_tables df_origin p first_run (h, sink) = (Some IndexError, (h', sink))"
    by (simp add: clean_tables_def)
  then show ?thesis
    by simp
qed

theorem no_rows_raises_witness:
  "rows (dropna_rows (dropna_cols (replace_blank
     ([DataFrame [['''']], DataFrame q1_grid] ! 0)))) = [] \<and>
   cleaning_loop True [(0, \<lparr>parent = ''reports'', name = ''two.html''\<rparr>),
                       (1, \<lparr>parent = ''reports'', name = ''two.html''\<rparr>)]
     ([DataFrame [['''']], DataFrame q1_grid], []) =
     ([(\<lparr>parent = ''reports'', name = ''two.html''\<rparr>, True)], Some IndexError,
      snd (clean_tables 0 \<lparr>parent = ''reports'', name = ''two.html''\<rparr> True
             ([DataFrame [['''']], DataFrame q1_grid], [])))"
proof -
  have a: "rows (dropna_rows (dropna_cols (replace_blank
             ([DataFrame [['''']], DataFrame q1_grid] ! 0)))) = []"
    by code_simp
  show ?thesis
    using no_rows_raises [OF a] a by simp
qed

section \<open>Title extraction\<close>

text \<open>
  C4, as stated: whenever the cell at row 0, column 1 holds non-empty text, the title
  is that text and row 0 is dropped. For the text "No Title" the title is that text,
  but line 141 compares the title with the sentinel and keeps row 0.
\<close>

theorem sentinel_text_counterexample:
  "\<not> (title_extraction no_title_frame = Inr ''No Title'' \<and>
      rows (frame_after (drop_title_row ''No Title'' 0 [no_title_frame])) =
        tl (rows no_title_frame))"
  by code_simp

text \<open>
  C4, amended: for every frame with a cell at row 0, column 1: if that cell holds
  non-empty text other than the text "No Title", the title is that text and \<^verbatim>\<open>df\<close>
  becomes a frame with the same rows without row 0; in every other case the title is
  "No Title" and \<^verbatim>\<open>df\<close> stays the frame with all its rows.
\<close>

theorem title_and_row0:
  assumes "rows (h ! df) \<noteq> []" and "2 \<le> length (columns (h ! df))"
  shows "(\<forall>s. hd (rows (h ! df)) ! 1 = Str s \<and> s \<noteq> [] \<and> s \<noteq> ''No Title'' \<longrightarrow>
            title_extraction (h ! df) = Inr s \<and>
            rows (frame_after (drop_title_row s df h)) = tl (rows (h ! df))) \<and>
         ((\<nexists>s. hd (rows (h ! df)) ! 1 = Str s \<and> s \<noteq> [] \<and> s \<noteq> ''No Title'') \<longrightarrow>
            title_extraction (h ! df) = Inr ''No Title'' \<and>
            frame_after (drop_title_row ''No Title'' df h) = h ! df)"
  using assms
  by (auto simp add: title_extraction_def drop_title_row_def frame_after_def alloc_def
      reset_index_def iloc_from1_def drop_Suc split: cell.splits)

theorem title_and_row0_witness:
  "title_extraction ([replace_blank (DataFrame q1_grid)] ! 0) = Inr ''Q1 Report'' \<and>
   rows (frame_after (drop_title_row ''Q1 Report'' 0 [replace_blank (DataFrame q1_grid)])) =
     tl (rows ([replace_blank (DataFrame q1_grid)] ! 0)) \<and>
   title_extraction ([no_title_frame] ! 0) = Inr ''No Title'' \<and>
   frame_after (drop_title_row ''No Title'' 0 [no_title_frame]) = [no_title_frame] ! 0"
proof -
  have a: "rows ([replace_blank (DataFrame q1_grid)] ! 0) \<noteq> []"
    by code_simp
  have b: "2 \<le> length (columns ([replace_blank (DataFrame q1_grid)] ! 0))"
    by code_simp
  have c: "hd (rows ([replace_blank (DataFrame q1_grid)] ! 0)) ! 1 = Str ''Q1 Report''"
    by code_simp
  have d: "rows ([no_title_frame] ! 0) \<noteq> []"
    by code_simp
  have e: "2 \<le> length (columns ([no_title_frame] ! 0))"
    by code_simp
  have f: "hd (rows ([no_title_frame] ! 0)) ! 1 = Str ''No Title''"
    by code_simp
  show ?thesis
    using title_and_row0 [OF a b] title_and_row0 [OF d e] c f by simp
qed

section \<open>The merge pass\<close>

lemma replace_paren_id: "CHR ''('' \<notin> set s \<Longrightarrow> replace_paren s = s"
  by (induction s) (auto simp add: replace_paren_def)

lemma is_percent_tokens: "is_percent (Str ''%'')" "is_percent (Str ''%)'')" "\<not> is_percent NaN"
  by (simp_all add: is_percent_def strip_def py_isspace_def)

lemma length_merge_pair: "length (merge_pair j r) = length r"
  by (simp add: merge_pair_def Let_def)

lemma merge_pair_other: "i \<noteq> j \<Longrightarrow> i \<noteq> Suc j \<Longrightarrow> merge_pair j r ! i = r ! i"
  by (simp add: merge_pair_def Let_def)

lemma merge_pair_right:
  "Suc j < length r \<Longrightarrow>
   merge_pair j r ! Suc j = (if is_percent (r ! Suc j) then NaN else r ! Suc j)"
  by (simp add: merge_pair_def Let_def)

lemma merge_pair_left:
  "Suc j < length r \<Longrightarrow> is_percent (r ! Suc j) \<Longrightarrow>
   merge_pair j r ! j =
     Str (replace_paren (py_str (if r ! j = Str [] \<or> strip (py_str (r ! j)) = ''$''
                                 then NaN else r ! j) @ '' %''))"
  by (simp add: merge_pair_def Let_def replace_paren_id)

lemma length_fold_merge: "length (fold merge_pair [m..<k] r) = length r"
  by (induction k) (simp_all add: length_merge_pair)

lemma fold_merge_above:
  "k < i \<Longrightarrow> fold merge_pair [0..<k] r ! i = r ! i"
  by (induction k) (simp_all add: merge_pair_other)

lemma fold_merge_at:
  "k < length r \<Longrightarrow>
   fold merge_pair [0..<k] r ! k = (if 0 < k \<and> is_percent (r ! k) then NaN else r ! k)"
proof (cases k)
  case 0
  then show ?thesis by simp
next
  case (Suc k')
  assume "k < length r"
  with Suc have "Suc k' < length (fold merge_pair [0..<k'] r)"
    by (simp add: length_fold_merge)
  then show ?thesis
    using Suc by (simp add: merge_pair_right fold_merge_above)
qed

lemma fold_merge_below:
  "i < m \<Longrightarrow> fold merge_pair [m..<k] x ! i = x ! i"
  by (induction k) (simp_all add: merge_pair_other)

lemma merge_row_split:
  assumes "Suc j < n"
  shows "merge_row n r =
           fold merge_pair [Suc j..<n - 1] (merge_pair j (fold merge_pair [0..<j] r))"
proof -
  have "[0..<n - 1] = [0..<j] @ [j] @ [Suc j..<n - 1]"
    using assms upt_add_eq_append [of 0 j "n - 1 - j"] upt_conv_Cons [of j "n - 1"]
    by simp
  then show ?thesis
    by (simp add: merge_row_def)
qed

lemma merge_row_left:
  assumes "Suc j < length r" and "is_percent (r ! Suc j)"
  shows "merge_row (length r) r ! j =
     Str (replace_paren (py_str
       (if (0 < j \<and> is_percent (r ! j)) \<or> r ! j = Str [] \<or> strip (py_str (r ! j)) = ''$''
        then NaN else r ! j) @ '' %''))"
proof -
  let ?x = "fold merge_pair [0..<j] r"
  have len: "Suc j < length ?x"
    using assms(1) by (simp add: length_fold_merge)
  have nxt: "?x ! Suc j = r ! Suc j"
    by (simp add: fold_merge_above)
  have cur: "?x ! j = (if 0 < j \<and> is_percent (r ! j) then NaN else r ! j)"
    using assms(1) by (simp add: fold_merge_at)
  have "merge_row (length r) r ! j = merge_pair j ?x ! j"
    using assms(1) by (simp add: merge_row_split fold_merge_below)
  also have "\<dots> = Str (replace_paren (py_str
       (if ?x ! j = Str [] \<or> strip (py_str (?x ! j)) = ''$'' then NaN else ?x ! j) @ '' %''))"
    using len assms(2) nxt by (simp add: merge_pair_left)
  finally show ?thesis
    by (simp add: cur strip_def py_isspace_def)
qed
text \<open>
  C5. In the loop body for the pair \<open>(j, j + 1)\<close> of a row, whenever cell \<open>j + 1\<close> is
  exactly "%" or "%)": cell \<open>j\<close> becomes the text of cell \<open>j\<close> followed by " %", with
  every "(" replaced by "-", and cell \<open>j + 1\<close> becomes \<^verbatim>\<open>np.nan\<close>. The text of cell \<open>j\<close>
  is \<^verbatim>\<open>str\<close> of the cell as lines 148 to 152 of the same iteration leave it (an empty
  or "$" cell has been set to \<^verbatim>\<open>np.nan\<close> by then); for a cell with other text \<open>s\<close> it
  is \<open>s\<close>. After the whole pass cell \<open>j\<close> of the row still holds that value. The row
  "Decline", "(5", "%)" becomes "Decline", "-5 %", \<^verbatim>\<open>np.nan\<close>.
\<close>

theorem percent_merge:
  assumes "Suc j < length r" and "r ! Suc j = Str ''%'' \<or> r ! Suc j = Str ''%)''"
  shows "merge_pair j r ! j =
           Str (replace_paren (py_str (if r ! j = Str [] \<or> strip (py_str (r ! j)) = ''$''
                                       then NaN else r ! j) @ '' %'')) \<and>
         merge_pair j r ! Suc j = NaN \<and>
         (\<forall>s. r ! j = Str s \<and> s \<noteq> [] \<and> strip s \<noteq> ''$'' \<longrightarrow>
              merge_pair j r ! j = Str (replace_paren (s @ '' %''))) \<and>
         merge_row (length r) r ! j =
           Str (replace_paren (py_str
             (if (0 < j \<and> is_percent (r ! j)) \<or> r ! j = Str [] \<or>
                 strip (py_str (r ! j)) = ''$''
              then NaN else r ! j) @ '' %'')) \<and>
         merge_row 3 [Str ''Decline'', Str ''(5'', Str ''%)''] =
           [Str ''Decline'', Str ''-5 %'', NaN]"
proof -
  have p: "is_percent (r ! Suc j)"
    using assms(2) is_percent_tokens by auto
  have l: "merge_pair j r ! j =
           Str (replace_paren (py_str (if r ! j = Str [] \<or> strip (py_str (r ! j)) = ''$''
                                       then NaN else r ! j) @ '' %''))"
    using assms(1) p by (rule merge_pair_left)
  have t: "\<forall>s. r ! j = Str s \<and> s \<noteq> [] \<and> strip s \<noteq> ''$'' \<longrightarrow>
              merge_pair j r ! j = Str (replace_paren (s @ '' %''))"
    using l by simp
  have n: "merge_pair j r ! Suc j = NaN"
    using assms(1) p by (simp add: merge_pair_right)
  have e: "merge_row 3 [Str ''Decline'', Str ''(5'', Str ''%)''] =
           [Str ''Decline'', Str ''-5 %'', NaN]"
    by code_simp
  show ?thesis
    using l n t e merge_row_left [OF assms(1) p] by simp
qed

theorem percent_merge_witness:
  "merge_pair 1 [Str ''Decline'', Str ''(5'', Str ''%)''] ! 1 = Str ''-5 %'' \<and>
   merge_pair 1 [Str ''Decline'', Str ''(5'', Str ''%)''] ! Suc 1 = NaN"
proof -
  have a: "Suc 1 < length [Str ''Decline'', Str ''(5'', Str ''%)'']"
    by simp
  have b: "[Str ''Decline'', Str ''(5'', Str ''%)''] ! Suc 1 = Str ''%'' \<or>
           [Str ''Decline'', Str ''(5'', Str ''%)''] ! Suc 1 = Str ''%)''"
    by simp
  show ?thesis
    using percent_merge [OF a b]
    by (simp add: replace_paren_def strip_def py_isspace_def)
qed

text \<open>
  C10. In a row where cell \<open>j\<close> is \<^verbatim>\<open>np.nan\<close> and cell \<open>j + 1\<close> is exactly "%" or "%)",
  the merge pass leaves the text "nan %" in cell \<open>j\<close>, and the compaction of line 164
  keeps that text among the cells of the row. (\<^verbatim>\<open>np.nan\<close> is the marker that line 133
  and the pass itself write. The \<^verbatim>\<open>None\<close> of a padded short row never stands directly
  before a text: lemma \<open>missing_before_text_is_nan\<close> below.)
\<close>

theorem nan_percent:
  assumes "Suc j < length r" and "r ! j = NaN"
    and "r ! Suc j = Str ''%'' \<or> r ! Suc j = Str ''%)''"
  shows "merge_row (length r) r ! j = Str ''nan %'' \<and>
         notna (merge_row (length r) r ! j) \<and>
         Str ''nan %'' \<in> set (shift_right_row (merge_row (length r) r))"
proof -
  have p: "is_percent (r ! Suc j)"
    using assms(3) is_percent_tokens by auto
  have m: "merge_row (length r) r ! j = Str ''nan %''"
    using merge_row_left [OF assms(1) p] assms(2)
    by (simp add: replace_paren_def)
  have "j < length (merge_row (length r) r)"
    using assms(1) by (simp add: merge_row_def length_fold_merge)
  then have "Str ''nan %'' \<in> set (merge_row (length r) r)"
    using m nth_mem by metis
  then have "Str ''nan %'' \<in> set (shift_right_row (merge_row (length r) r))"
    by (simp add: shift_right_row_def)
  with m show ?thesis by simp
qed

theorem nan_percent_witness:
  "merge_row (length [Str ''Margin'', NaN, Str ''%'']) [Str ''Margin'', NaN, Str ''%''] ! 1 =
     Str ''nan %'' \<and>
   Str ''nan %'' \<in> set (shift_right_row
     (merge_row (length [Str ''Margin'', NaN, Str ''%'']) [Str ''Margin'', NaN, Str ''%'']))"
proof -
  have a: "Suc 1 < length [Str ''Margin'', NaN, Str ''%'']"
    by simp
  have b: "[Str ''Margin'', NaN, Str ''%''] ! 1 = NaN"
    by simp
  have c: "[Str ''Margin'', NaN, Str ''%''] ! Suc 1 = Str ''%'' \<or>
           [Str ''Margin'', NaN, Str ''%''] ! Suc 1 = Str ''%)''"
    by simp
  show ?thesis
    using nan_percent [OF a b c] by blast
qed

section \<open>The first-run flag\<close>

lemma loop_later_calls: "list_all (\<lambda>c. \<not> snd c) (fst (cleaning_loop False ts w))"
proof (induction ts arbitrary: w)
  case Nil
  then show ?case by simp
next
  case (Cons t ts)
  obtain e w' where c: "clean_tables (fst t) (snd t) False w = (e, w')"
    by (cases "clean_tables (fst t) (snd t) False w")
  show ?case
  proof (cases e)
    case None
    obtain calls r where l: "cleaning_loop False ts w' = (calls, r)"
      by (cases "cleaning_loop False ts w'")
    with Cons.IH [of w'] have "list_all (\<lambda>c. \<not> snd c) calls"
      by simp
    with c None l show ?thesis by simp
  next
    case (Some x)
    with c show ?thesis by simp
  qed
qed

lemma loop_first_call:
  "fst (cleaning_loop first_run (t # ts) w) \<noteq> [] \<and>
   snd (hd (fst (cleaning_loop first_run (t # ts) w))) = first_run \<and>
   list_all (\<lambda>c. \<not> snd c) (tl (fst (cleaning_loop first_run (t # ts) w)))"
proof -
  obtain e w' where c: "clean_tables (fst t) (snd t) first_run w = (e, w')"
    by (cases "clean_tables (fst t) (snd t) first_run w")
  show ?thesis
  proof (cases e)
    case None
    obtain calls r where l: "cleaning_loop False ts w' = (calls, r)"
      by (cases "cleaning_loop False ts w'")
    with loop_later_calls [of ts w'] have "list_all (\<lambda>c. \<not> snd c) calls"
      by simp
    with c None l show ?thesis by simp
  next
    case (Some x)
    with c show ?thesis by simp
  qed
qed

lemma extract_data_length:
  "length (snd (extract_data p tables st)) = length (snd st) + length tables"
proof (induction tables arbitrary: st)
  case Nil
  then show ?case by (simp add: extract_data_def)
next
  case (Cons t tables)
  have "extract_data p (t # tables) st =
          extract_data p tables (fst st @ [DataFrame t], snd st @ [(length (fst st), p)])"
    by (cases st) (simp add: extract_data_def alloc_def)
  then show ?case
    using Cons.IH by simp
qed

lemma extract_all_length:
  "length (snd (fold (\<lambda>doc. extract_data (fst doc) (snd doc)) docs st)) =
     length (snd st) + length (concat (map snd docs))"
  by (induction docs arbitrary: st) (simp_all add: extract_data_length)

lemma clean_tables_append:
  assumes "clean_tables a p False (h, s) = (e, (h', s'))"
  shows "\<exists>rs. s' = s @ map Row rs"
proof -
  have "s' = s \<or> (\<exists>rs. s' = s @ map Row rs)"
    using assms
    by (auto simp add: clean_tables_def store_data_def to_csv_def
        split: prod.splits sum.splits)
  then show ?thesis
    by (metis append_Nil2 list.simps(8))
qed

lemma loop_appends: "\<exists>rs. sink_of (cleaning_loop False ts (h, s)) = s @ map Row rs"
proof (induction ts arbitrary: h s)
  case Nil
  have "sink_of (cleaning_loop False [] (h, s)) = s @ map Row []"
    by (simp add: sink_of_def)
  then show ?case ..
next
  case (Cons t ts)
  obtain e h1 s1 where c: "clean_tables (fst t) (snd t) False (h, s) = (e, (h1, s1))"
    by (cases "clean_tables (fst t) (snd t) False (h, s)") auto
  from clean_tables_append [OF c] obtain rs1 where s1: "s1 = s @ map Row rs1" ..
  show ?case
  proof (cases e)
    case None
    from Cons.IH [of h1 s1] obtain rs2 where
      "sink_of (cleaning_loop False ts (h1, s1)) = s1 @ map Row rs2" ..
    with c None s1 have "sink_of (cleaning_loop False (t # ts) (h, s)) = s @ map Row (rs1 @ rs2)"
      by (auto simp add: sink_of_def split: prod.splits)
    then show ?thesis ..
  next
    case (Some x)
    with c s1 have "sink_of (cleaning_loop False (t # ts) (h, s)) = s @ map Row rs1"
      by (simp add: sink_of_def)
    then show ?thesis ..
  qed
qed

lemma no_record_first_sink:
  "sink_of (run no_record_first []) =
     [Header [],
      Row \<lparr>filename = ''two.html'', label = Str ''Growth'', tablename = ''Q1 Report'',
           column_name = Name (Str ''100''), val = Str ''12 %''\<rparr>]"
  by code_simp

text \<open>
  C7, as stated: the call with \<^verbatim>\<open>first_run = True\<close> writes the header line. In the run
  on a document whose first table has a title row and a header row and no data row,
  the first call (the only one with \<^verbatim>\<open>first_run = True\<close>) writes the column names of
  a frame without columns, an empty line, and the second call appends its record
  without a header: the sink never gets the line with the five column names.
\<close>

theorem header_missing_counterexample:
  "\<not> (Header [''filename'', ''label'', ''tablename'', ''column name'', ''value'']
        \<in> set (sink_of (run no_record_first [])))"
  by (simp add: no_record_first_sink)

text \<open>
  C7, amended. \<^verbatim>\<open>store_data\<close> with \<^verbatim>\<open>first_run = True\<close> discards the previous content
  of the sink and, when the table gives at least one record, writes the header line
  with the five column names followed by the records; with \<^verbatim>\<open>first_run = False\<close> it
  keeps the content and adds the records, with no header line. \<^verbatim>\<open>clean_tables\<close> hands
  its \<^verbatim>\<open>first_run\<close> flag to \<^verbatim>\<open>store_data\<close> at line 195. In the loop of lines 215 to
  219 started with \<^verbatim>\<open>first_run = True\<close>, when the first table gives at least one record
  the sink ends as the header line followed by records only. In a run, the first call
  of \<^verbatim>\<open>clean_tables\<close> gets \<^verbatim>\<open>first_run = True\<close> and every later call gets \<^verbatim>\<open>False\<close>; a
  run with at least one table makes a first call, a run without tables makes no call.
\<close>

theorem first_run_flag:
  "(structured_data p title df = Inr structured \<longrightarrow>
      store_data p title df True sink = store_data p title df True [] \<and>
      (structured \<noteq> [] \<longrightarrow>
         store_data p title df True sink =
           Inr (Header [''filename'', ''label'', ''tablename'', ''column name'', ''value'']
                # map Row structured)) \<and>
      store_data p title df False sink = Inr (sink @ map Row structured)) \<and>
   (normalize_table df_origin h = (Inr (title, d), h') \<longrightarrow>
      clean_tables df_origin p first_run (h, sink) =
        (case store_data p title (h' ! d) first_run sink of
           Inl e \<Rightarrow> (Some e, (h', sink))
         | Inr s \<Rightarrow> (None, (h', s)))) \<and>
   (normalize_table df_origin h = (Inr (title, d), h') \<and>
    structured_data p title (h' ! d) = Inr structured \<and> structured \<noteq> [] \<longrightarrow>
      (\<exists>rs. sink_of (cleaning_loop True ((df_origin, p) # rest) (h, sink)) =
         Header [''filename'', ''label'', ''tablename'', ''column name'', ''value'']
         # map Row (structured @ rs))) \<and>
   (concat (map snd docs) \<noteq> [] \<longrightarrow>
      calls_of (run docs sink0) \<noteq> [] \<and>
      snd (hd (calls_of (run docs sink0))) \<and>
      list_all (\<lambda>c. \<not> snd c) (tl (calls_of (run docs sink0))) \<and>
      length (filter snd (calls_of (run docs sink0))) = 1) \<and>
   (concat (map snd docs) = [] \<longrightarrow> calls_of (run docs sink0) = [])"
proof -
  obtain h0 all_tables where
    e: "fold (\<lambda>doc. extract_data (fst doc) (snd doc)) docs ([], []) = (h0, all_tables)"
    by (cases "fold (\<lambda>doc. extract_data (fst doc) (snd doc)) docs ([], [])")
  have len: "length all_tables = length (concat (map snd docs))"
    using extract_all_length [of docs "([], [])"] e by simp
  have r: "calls_of (run docs sink0) = fst (cleaning_loop True all_tables (h0, sink0))"
    by (simp add: run_def e calls_of_def)
  have one: "length (filter snd cs) = 1"
    if "cs \<noteq> []" "snd (hd cs)" "list_all (\<lambda>c. \<not> snd c) (tl cs)" for cs :: "(path \<times> bool) list"
  proof -
    from that(1) obtain c cs' where c: "cs = c # cs'" by (cases cs) auto
    with that(3) have "filter snd cs' = []"
      by (simp add: list_all_iff filter_empty_conv)
    with c that(2) show ?thesis by simp
  qed
  have first: "concat (map snd docs) \<noteq> [] \<longrightarrow>
      calls_of (run docs sink0) \<noteq> [] \<and>
      snd (hd (calls_of (run docs sink0))) \<and>
      list_all (\<lambda>c. \<not> snd c) (tl (calls_of (run docs sink0))) \<and>
      length (filter snd (calls_of (run docs sink0))) = 1"
  proof
    assume "concat (map snd docs) \<noteq> []"
    with len obtain t ts where "all_tables = t # ts"
      by (cases all_tables) auto
    with loop_first_call [of True t ts "(h0, sink0)"] r
    have f: "calls_of (run docs sink0) \<noteq> [] \<and>
      snd (hd (calls_of (run docs sink0))) \<and>
      list_all (\<lambda>c. \<not> snd c) (tl (calls_of (run docs sink0)))"
      by simp
    with one show "calls_of (run docs sink0) \<noteq> [] \<and>
      snd (hd (calls_of (run docs sink0))) \<and>
      list_all (\<lambda>c. \<not> snd c) (tl (calls_of (run docs sink0))) \<and>
      length (filter snd (calls_of (run docs sink0))) = 1"
      by blast
  qed
  have none: "concat (map snd docs) = [] \<longrightarrow> calls_of (run docs sink0) = []"
  proof
    assume "concat (map snd docs) = []"
    with len have "all_tables = []" by simp
    with r show "calls_of (run docs sink0) = []" by simp
  qed
  have emit: "structured_data p title df = Inr structured \<longrightarrow>
      store_data p title df True sink = store_data p title df True [] \<and>
      (structured \<noteq> [] \<longrightarrow>
         store_data p title df True sink =
           Inr (Header [''filename'', ''label'', ''tablename'', ''column name'', ''value'']
                # map Row structured)) \<and>
      store_data p title df False sink = Inr (sink @ map Row structured)"
    by (simp add: store_data_def to_csv_def)
  have pass: "normalize_table df_origin h = (Inr (title, d), h') \<longrightarrow>
      clean_tables df_origin p first_run (h, sink) =
        (case store_data p title (h' ! d) first_run sink of
           Inl e \<Rightarrow> (Some e, (h', sink))
         | Inr s \<Rightarrow> (None, (h', s)))"
    by (auto simp add: clean_tables_def split: sum.splits)
  have top: "normalize_table df_origin h = (Inr (title, d), h') \<and>
    structured_data p title (h' ! d) = Inr structured \<and> structured \<noteq> [] \<longrightarrow>
      (\<exists>rs. sink_of (cleaning_loop True ((df_origin, p) # rest) (h, sink)) =
         Header [''filename'', ''label'', ''tablename'', ''column name'', ''value'']
         # map Row (structured @ rs))"
  proof
    let ?s1 = "Header [''filename'', ''label'', ''tablename'', ''column name'', ''value'']
                 # map Row structured"
    assume a: "normalize_table df_origin h = (Inr (title, d), h') \<and>
      structured_data p title (h' ! d) = Inr structured \<and> structured \<noteq> []"
    then have c: "clean_tables df_origin p True (h, sink) = (None, (h', ?s1))"
      by (simp add: clean_tables_def store_data_def to_csv_def)
    from loop_appends [of rest h' ?s1] obtain rs where
      l: "sink_of (cleaning_loop False rest (h', ?s1)) = ?s1 @ map Row rs" ..
    from c l have "sink_of (cleaning_loop True ((df_origin, p) # rest) (h, sink)) =
        Header [''filename'', ''label'', ''tablename'', ''column name'', ''value'']
         # map Row (structured @ rs)"
      by (auto simp add: sink_of_def split: prod.splits)
    then show "\<exists>rs. sink_of (cleaning_loop True ((df_origin, p) # rest) (h, sink)) =
         Header [''filename'', ''label'', ''tablename'', ''column name'', ''value'']
         # map Row (structured @ rs)" ..
  qed
  from emit pass top first none show ?thesis by blast
qed

theorem first_run_flag_witness:
  "store_data \<lparr>parent = ''reports'', name = ''q1.html''\<rparr> ''Q1 Report''
     \<lparr>index = [0], columns = [Name (Str ''Revenue''), Name (Str ''100'')],
      rows = [[Str ''Growth'', Str ''12 %'']]\<rparr> True [Header []] =
   Inr [Header [''filename'', ''label'', ''tablename'', ''column name'', ''value''],
        Row \<lparr>filename = ''q1.html'', label = Str ''Growth'', tablename = ''Q1 Report'',
             column_name = Name (Str ''100''), val = Str ''12 %''\<rparr>] \<and>
   store_data \<lparr>parent = ''reports'', name = ''q1.html''\<rparr> ''Q1 Report''
     \<lparr>index = [0], columns = [Name (Str ''Revenue''), Name (Str ''100'')],
      rows = [[Str ''Growth'', Str ''12 %'']]\<rparr> False [Header []] =
   Inr [Header [],
        Row \<lparr>filename = ''q1.html'', label = Str ''Growth'', tablename = ''Q1 Report'',
             column_name = Name (Str ''100''), val = Str ''12 %''\<rparr>] \<and>
   length (filter snd (calls_of (run
     [(\<lparr>parent = ''reports'', name = ''q1.html''\<rparr>, [q1_grid, q1_grid])] []))) = 1"
proof -
  have a: "structured_data \<lparr>parent = ''reports'', name = ''q1.html''\<rparr> ''Q1 Report''
     \<lparr>index = [0], columns = [Name (Str ''Revenue''), Name (Str ''100'')],
      rows = [[Str ''Growth'', Str ''12 %'']]\<rparr> =
     Inr [\<lparr>filename = ''q1.html'', label = Str ''Growth'', tablename = ''Q1 Report'',
             column_name = Name (Str ''100''), val = Str ''12 %''\<rparr>]"
    by (simp add: structured_data_def upt_1_2)
  have b: "concat (map snd [(\<lparr>parent = ''reports'', name = ''q1.html''\<rparr>, [q1_grid, q1_grid])]) \<noteq> []"
    by simp
  note t = first_run_flag [where p = "\<lparr>parent = ''reports'', name = ''q1.html''\<rparr>"
        and title = "''Q1 Report''"
        and df = "\<lparr>index = [0], columns = [Name (Str ''Revenue''), Name (Str ''100'')],
          rows = [[Str ''Growth'', Str ''12 %'']]\<rparr>"
        and structured = "[\<lparr>filename = ''q1.html'', label = Str ''Growth'',
             tablename = ''Q1 Report'', column_name = Name (Str ''100''), val = Str ''12 %''\<rparr>]"
        and sink = "[Header []]"
        and docs = "[(\<lparr>parent = ''reports'', name = ''q1.html''\<rparr>, [q1_grid, q1_grid])]"
        and ?sink0.0 = "[]" and df_origin = 0 and h = "[]" and d = 0 and h' = "[]"
        and first_run = True and rest = "[]"]
  note u = t [THEN conjunct1, THEN mp, OF a]
  have n: "[\<lparr>filename = ''q1.html'', label = Str ''Growth'',
             tablename = ''Q1 Report'', column_name = Name (Str ''100''), val = Str ''12 %''\<rparr>] \<noteq> []"
    by simp
  from u [THEN conjunct2, THEN conjunct1, THEN mp, OF n]
  have c1: "store_data \<lparr>parent = ''reports'', name = ''q1.html''\<rparr> ''Q1 Report''
     \<lparr>index = [0], columns = [Name (Str ''Revenue''), Name (Str ''100'')],
      rows = [[Str ''Growth'', Str ''12 %'']]\<rparr> True [Header []] =
   Inr [Header [''filename'', ''label'', ''tablename'', ''column name'', ''value''],
        Row \<lparr>filename = ''q1.html'', label = Str ''Growth'', tablename = ''Q1 Report'',
             column_name = Name (Str ''100''), val = Str ''12 %''\<rparr>]"
    by simp
  from u [THEN conjunct2, THEN conjunct2]
  have c2: "store_data \<lparr>parent = ''reports'', name = ''q1.html''\<rparr> ''Q1 Report''
     \<lparr>index = [0], columns = [Name (Str ''Revenue''), Name (Str ''100'')],
      rows = [[Str ''Growth'', Str ''12 %'']]\<rparr> False [Header []] =
   Inr [Header [],
        Row \<lparr>filename = ''q1.html'', label = Str ''Growth'', tablename = ''Q1 Report'',
             column_name = Name (Str ''100''), val = Str ''12 %''\<rparr>]"
    by simp
  from t [THEN conjunct2, THEN conjunct2, THEN conjunct2, THEN conjunct1] b
  have "length (filter snd (calls_of (run
     [(\<lparr>parent = ''reports'', name = ''q1.html''\<rparr>, [q1_grid, q1_grid])] []))) = 1"
    by blast
  with c1 c2 show ?thesis by blast
qed

section \<open>Frames stay rectangular\<close>

lemma rect_iff:
  "rect df \<longleftrightarrow> length (index df) = length (rows df) \<and>
     (\<forall>r \<in> set (rows df). length r = length (columns df))"
  by (simp add: rect_def list_all_iff)

lemma foldr_max_ge: "r \<in> set g \<Longrightarrow> length r \<le> foldr max (map length g) 0"
  by (induction g) auto

lemma rect_DataFrame: "rect (DataFrame table_data)"
  by (auto simp add: rect_iff DataFrame_def Let_def foldr_max_ge)

lemma rect_replace_blank: "rect df \<Longrightarrow> rect (replace_blank df)"
  by (auto simp add: rect_iff replace_blank_def)

lemma rect_dropna_cols: "rect df \<Longrightarrow> rect (dropna_cols df)"
  by (auto simp add: rect_iff dropna_cols_def Let_def)

lemma rect_dropna_rows: "rect df \<Longrightarrow> rect (dropna_rows df)"
  by (auto simp add: rect_iff dropna_rows_def Let_def dest: set_zip_rightD)

lemma rect_reset_index: "rect df \<Longrightarrow> rect (reset_index df)"
  by (auto simp add: rect_iff reset_index_def)

lemma rect_iloc_from1: "rect df \<Longrightarrow> rect (iloc_from1 df)"
  by (auto simp add: rect_iff iloc_from1_def dest: in_set_dropD)

lemma length_merge_row: "length (merge_row n r) = length r"
  by (simp add: merge_row_def length_fold_merge)

lemma rect_merge_pass: "rect df \<Longrightarrow> rect (merge_pass df)"
  by (auto simp add: rect_iff merge_pass_def length_merge_row)

lemma length_shift_right_row: "length (shift_right_row r) = length r"
  using sum_length_filter_compl [of notna r] by (simp add: shift_right_row_def)

lemma length_shift_left_row: "length (shift_left_row r) = length r"
  using sum_length_filter_compl [of notna r] by (simp add: shift_left_row_def)

lemma rect_shift_right: "rect df \<Longrightarrow> rect (shift_right df)"
  by (auto simp add: rect_iff shift_right_def length_shift_right_row)

lemma rect_shift_left: "rect df \<Longrightarrow> rect (shift_left df)"
  by (auto simp add: rect_iff shift_left_def length_shift_left_row)

lemma rect_merge_into_row1:
  "merge_into_row1 v df = Inr df' \<Longrightarrow> rect df \<Longrightarrow> rect df'"
  by (auto simp add: rect_iff merge_into_row1_def Let_def split: if_splits
      dest!: set_update_subset_insert [THEN subsetD])

lemma rect_drop_index: "drop_index i df = Inr df' \<Longrightarrow> rect df \<Longrightarrow> rect df'"
proof -
  assume d: "drop_index i df = Inr df'" and r: "rect df"
  have "b \<in> set (rows df)" if "(a, b) \<in> set (zip (index df) (rows df))" for a b
    using that by (rule set_zip_rightD)
  with r have "length b = length (columns df)"
    if "(a, b) \<in> set (zip (index df) (rows df))" for a b
    using that by (simp add: rect_iff)
  with d show ?thesis
    by (auto simp add: rect_iff drop_index_def Let_def split: if_splits)
qed

lemma rect_set_columns: "set_columns cs df = Inr df' \<Longrightarrow> rect df \<Longrightarrow> rect df'"
  by (auto simp add: rect_iff set_columns_def split: if_splits)
section \<open>The store during \<^verbatim>\<open>clean_tables\<close>\<close>

lemma clean_prefix_eval:
  "clean_prefix a h =
     (let c = h ! a; d1 = dropna_rows (dropna_cols (replace_blank c)) in
      case title_extraction d1 of
        Inl e \<Rightarrow> (Inl e, h @ [c, d1])
      | Inr title \<Rightarrow>
          if title \<noteq> ''No Title'' then
            (Inr (title, length (rows (reset_index (iloc_from1 d1))) - 1, length h + 3),
             h @ [c, d1, merge_pass (reset_index (iloc_from1 d1)),
                  dropna_cols (shift_right (merge_pass (reset_index (iloc_from1 d1))))])
          else
            (Inr (title, length (rows d1) - 1, length h + 2),
             h @ [c, merge_pass d1, dropna_cols (shift_right (merge_pass d1))]))"
  by (simp add: clean_prefix_def drop_title_row_def alloc_def inplace_def Let_def nth_append
      list_update_append split: sum.splits)

lemma single_value_repair_eval:
  "single_value_repair i (length h) (h @ [d]) =
     (case row0_present d of
        Inl e \<Rightarrow> (Inl e, h @ [d])
      | Inr present \<Rightarrow>
          if length present = 1 then
            (case merge_into_row1 (last present) d of
               Inl e \<Rightarrow> (Inl e, h @ [d])
             | Inr d1 \<Rightarrow>
                 (case drop_index i d1 of
                    Inl e \<Rightarrow> (Inl e, h @ [d1])
                  | Inr d2 \<Rightarrow>
                      (Inr (Suc (length h)),
                       h @ [reset_index d2, reset_index (iloc_from1 (reset_index d2))])))
          else (Inr (length h), h @ [d]))"
  by (simp add: single_value_repair_def alloc_def inplace_def Let_def nth_append
      split: sum.splits)

lemma capture_header_eval:
  "capture_header (length h) (h @ [d]) =
     (case rows d of
        [] \<Rightarrow> (Inl IndexError, h @ [d])
      | stored_columns # _ \<Rightarrow>
          (case set_columns stored_columns (shift_left d) of
             Inl e \<Rightarrow> (Inl e, h @ [d, shift_left d])
           | Inr d' \<Rightarrow>
               (Inr (length h + 2), h @ [d, d', reset_index (iloc_from1 d')])))"
  by (simp add: capture_header_def alloc_def Let_def nth_append list_update_append
      split: sum.splits list.splits)
lemma clean_prefix_inv:
  assumes "clean_prefix a h = (res, h')"
  shows "\<exists>ext. h' = h @ ext"
    and "res = Inr (t, i, df) \<Longrightarrow>
           \<exists>g d. h' = (h @ g) @ [d] \<and> df = length (h @ g) \<and> (rect (h ! a) \<longrightarrow> rect d)"
proof -
  show "\<exists>ext. h' = h @ ext"
    using assms
    by (auto simp add: clean_prefix_eval Let_def split: sum.splits if_splits)
  show "\<exists>g d. h' = (h @ g) @ [d] \<and> df = length (h @ g) \<and> (rect (h ! a) \<longrightarrow> rect d)"
    if "res = Inr (t, i, df)"
  proof (cases "t \<noteq> ''No Title''")
    case True
    let ?d1 = "dropna_rows (dropna_cols (replace_blank (h ! a)))"
    let ?d3 = "merge_pass (reset_index (iloc_from1 ?d1))"
    from assms that True
    have "h' = (h @ [h ! a, ?d1, ?d3]) @ [dropna_cols (shift_right ?d3)]"
      and "df = length (h @ [h ! a, ?d1, ?d3])"
      by (auto simp add: clean_prefix_eval Let_def split: sum.splits if_splits)
    moreover have "rect (h ! a) \<longrightarrow> rect (dropna_cols (shift_right ?d3))"
      by (simp add: rect_replace_blank rect_dropna_cols rect_dropna_rows rect_reset_index
          rect_iloc_from1 rect_merge_pass rect_shift_right)
    ultimately show ?thesis by blast
  next
    case False
    let ?d1 = "dropna_rows (dropna_cols (replace_blank (h ! a)))"
    from assms that False
    have "h' = (h @ [h ! a, merge_pass ?d1]) @ [dropna_cols (shift_right (merge_pass ?d1))]"
      and "df = length (h @ [h ! a, merge_pass ?d1])"
      by (auto simp add: clean_prefix_eval Let_def split: sum.splits if_splits)
    moreover have "rect (h ! a) \<longrightarrow> rect (dropna_cols (shift_right (merge_pass ?d1)))"
      by (simp add: rect_replace_blank rect_dropna_cols rect_dropna_rows
          rect_merge_pass rect_shift_right)
    ultimately show ?thesis by blast
  qed
qed

lemma single_value_repair_inv:
  assumes "single_value_repair i (length h) (h @ [d]) = (res, h')"
  shows "\<exists>ext. h' = h @ ext"
    and "res = Inr df \<Longrightarrow>
           \<exists>g d'. h' = (h @ g) @ [d'] \<and> df = length (h @ g) \<and> (rect d \<longrightarrow> rect d')"
proof -
  show "\<exists>ext. h' = h @ ext"
    using assms
    by (auto simp add: single_value_repair_eval split: sum.splits if_splits)
  show "\<exists>g d'. h' = (h @ g) @ [d'] \<and> df = length (h @ g) \<and> (rect d \<longrightarrow> rect d')"
    if r: "res = Inr df"
  proof (cases "\<exists>present. row0_present d = Inr present \<and> length present = 1")
    case True
    then obtain present where p: "row0_present d = Inr present" "length present = 1"
      by blast
    from assms r p obtain d1 d2 where
      m: "merge_into_row1 (last present) d = Inr d1" and dr: "drop_index i d1 = Inr d2"
      and h': "h' = h @ [reset_index d2, reset_index (iloc_from1 (reset_index d2))]"
      and df: "df = Suc (length h)"
      by (auto simp add: single_value_repair_eval split: sum.splits)
    have "rect d \<longrightarrow> rect (reset_index (iloc_from1 (reset_index d2)))"
      using m dr
      by (auto intro!: rect_reset_index rect_iloc_from1
          dest: rect_merge_into_row1 rect_drop_index)
    with h' df have "h' = (h @ [reset_index d2]) @ [reset_index (iloc_from1 (reset_index d2))] \<and>
        df = length (h @ [reset_index d2]) \<and>
        (rect d \<longrightarrow> rect (reset_index (iloc_from1 (reset_index d2))))"
      by simp
    then show ?thesis by blast
  next
    case False
    with assms r have "h' = (h @ []) @ [d] \<and> df = length (h @ []) \<and> (rect d \<longrightarrow> rect d)"
      by (auto simp add: single_value_repair_eval split: sum.splits if_splits)
    then show ?thesis by blast
  qed
qed

lemma capture_header_inv:
  assumes "capture_header (length h) (h @ [d]) = (res, h')"
  shows "\<exists>ext. h' = h @ ext"
    and "res = Inr df \<Longrightarrow> df < length h' \<and> (rect d \<longrightarrow> rect (h' ! df))"
proof -
  show "\<exists>ext. h' = h @ ext"
    using assms
    by (auto simp add: capture_header_eval split: sum.splits list.splits)
  show "df < length h' \<and> (rect d \<longrightarrow> rect (h' ! df))" if r: "res = Inr df"
  proof -
    from assms r obtain sc d' where
      s: "set_columns sc (shift_left d) = Inr d'"
      and h': "h' = h @ [d, d', reset_index (iloc_from1 d')]"
      and df: "df = length h + 2"
      by (auto simp add: capture_header_eval split: sum.splits list.splits)
    have "rect d \<longrightarrow> rect (reset_index (iloc_from1 d'))"
      using s
      by (auto intro!: rect_reset_index rect_iloc_from1 dest: rect_set_columns rect_shift_left)
    with h' df show ?thesis
      by (simp add: nth_append)
  qed
qed

lemma normalize_table_inv:
  assumes "normalize_table a h = (res, h')"
  shows "\<exists>ext. h' = h @ ext"
    and "res = Inr (t, df) \<Longrightarrow> df < length h' \<and> (rect (h ! a) \<longrightarrow> rect (h' ! df))"
proof -
  obtain r1 h1 where c: "clean_prefix a h = (r1, h1)"
    by (cases "clean_prefix a h")
  show "\<exists>ext. h' = h @ ext"
  proof (cases r1)
    case (Inl e)
    with c assms have "h' = h1" by (simp add: normalize_table_def)
    with clean_prefix_inv(1) [OF c] show ?thesis by simp
  next
    case (Inr x)
    obtain t1 i1 df1 where x: "x = (t1, i1, df1)" by (cases x)
    from clean_prefix_inv(2) [OF c, of t1 i1 df1] Inr x obtain g d where
      h1: "h1 = (h @ g) @ [d]" and df1: "df1 = length (h @ g)"
      by blast
    obtain r2 h2 where s: "single_value_repair i1 (length (h @ g)) ((h @ g) @ [d]) = (r2, h2)"
      by (cases "single_value_repair i1 (length (h @ g)) ((h @ g) @ [d])")
    show ?thesis
    proof (cases r2)
      case (Inl e)
      with c Inr x h1 df1 s assms have "h' = h2" by (simp add: normalize_table_def)
      with single_value_repair_inv(1) [OF s] show ?thesis by auto
    next
      case r2: (Inr df2)
      from single_value_repair_inv(2) [OF s, of df2] r2 obtain g2 d2 where
        h2: "h2 = ((h @ g) @ g2) @ [d2]" and df2: "df2 = length ((h @ g) @ g2)"
        by blast
      obtain r3 h3 where
        k: "capture_header (length ((h @ g) @ g2)) (((h @ g) @ g2) @ [d2]) = (r3, h3)"
        by (cases "capture_header (length ((h @ g) @ g2)) (((h @ g) @ g2) @ [d2])")
      from c Inr x h1 df1 s r2 h2 df2 k assms have "h' = h3"
        by (auto simp add: normalize_table_def split: sum.splits)
      with capture_header_inv(1) [OF k] show ?thesis by auto
    qed
  qed
  show "df < length h' \<and> (rect (h ! a) \<longrightarrow> rect (h' ! df))" if res: "res = Inr (t, df)"
  proof -
    from assms res c obtain i1 df1 where r1: "r1 = Inr (t, i1, df1)"
      by (auto simp add: normalize_table_def split: sum.splits prod.splits)
    from clean_prefix_inv(2) [OF c r1] obtain g d where
      h1: "h1 = (h @ g) @ [d]" and df1: "df1 = length (h @ g)"
      and rd: "rect (h ! a) \<longrightarrow> rect d"
      by blast
    obtain r2 h2 where s: "single_value_repair i1 (length (h @ g)) ((h @ g) @ [d]) = (r2, h2)"
      by (cases "single_value_repair i1 (length (h @ g)) ((h @ g) @ [d])")
    from assms res c r1 h1 df1 s obtain df2 where r2: "r2 = Inr df2"
      by (auto simp add: normalize_table_def split: sum.splits prod.splits)
    from single_value_repair_inv(2) [OF s r2] obtain g2 d2 where
      h2: "h2 = ((h @ g) @ g2) @ [d2]" and df2: "df2 = length ((h @ g) @ g2)"
      and rd2: "rect d \<longrightarrow> rect d2"
      by blast
    obtain r3 h3 where
      k: "capture_header (length ((h @ g) @ g2)) (((h @ g) @ g2) @ [d2]) = (r3, h3)"
      by (cases "capture_header (length ((h @ g) @ g2)) (((h @ g) @ g2) @ [d2])")
    from assms res c r1 h1 df1 s r2 h2 df2 k have "r3 = Inr df" and "h' = h3"
      by (auto simp add: normalize_table_def split: sum.splits prod.splits)
    with capture_header_inv(2) [OF k, of df] rd rd2 show ?thesis
      by blast
  qed
qed
lemma clean_tables_heap:
  "\<exists>ext. fst (snd (clean_tables df_origin p first_run (h, sink))) = h @ ext"
proof -
  obtain res h' where n: "normalize_table df_origin h = (res, h')"
    by (cases "normalize_table df_origin h")
  from normalize_table_inv(1) [OF n] obtain ext where "h' = h @ ext" ..
  with n show ?thesis
    by (auto simp add: clean_tables_def split: sum.splits prod.splits)
qed

lemma cleaning_loop_heap:
  "\<exists>ext. heap_of (cleaning_loop first_run ts (h, sink)) = h @ ext"
proof (induction ts arbitrary: first_run h sink)
  case Nil
  then show ?case by (simp add: heap_of_def)
next
  case (Cons t ts)
  obtain e h1 s1 where c: "clean_tables (fst t) (snd t) first_run (h, sink) = (e, (h1, s1))"
    by (cases "clean_tables (fst t) (snd t) first_run (h, sink)") auto
  from clean_tables_heap [of "fst t" "snd t" first_run h sink] c
  obtain ext1 where h1: "h1 = h @ ext1" by auto
  show ?case
  proof (cases e)
    case None
    from Cons.IH [of False h1 s1] obtain ext2 where
      "heap_of (cleaning_loop False ts (h1, s1)) = h1 @ ext2" ..
    with c None h1 have "heap_of (cleaning_loop first_run (t # ts) (h, sink)) = h @ ext1 @ ext2"
      by (auto simp add: heap_of_def split: prod.splits)
    then show ?thesis ..
  next
    case (Some x)
    with c h1 show ?thesis by (simp add: heap_of_def)
  qed
qed

section \<open>The normalized table\<close>

text \<open>
  C6. Whenever lines 130 to 193 succeed on a (rectangular) frame, the frame handed to
  \<^verbatim>\<open>store_data\<close> has in every row exactly as many cells as it has column names.
  Every frame built at line 47 is rectangular (lemma \<open>rect_DataFrame\<close>).
\<close>

theorem rows_match_columns:
  assumes "rect (h ! df_origin)"
    and "normalize_table df_origin h = (Inr (title, df), h')"
  shows "\<forall>r \<in> set (rows (h' ! df)). length r = length (columns (h' ! df))"
  using normalize_table_inv(2) [OF assms(2), of title df] assms(1)
  by (simp add: rect_iff)

theorem rows_match_columns_witness:
  "rect ([DataFrame q1_grid] ! 0) \<and>
   normalize_table 0 [DataFrame q1_grid] =
     (Inr (''Q1 Report'', 6), snd (normalize_table 0 [DataFrame q1_grid])) \<and>
   list_all (\<lambda>r. length r = length (columns (snd (normalize_table 0 [DataFrame q1_grid]) ! 6)))
     (rows (snd (normalize_table 0 [DataFrame q1_grid]) ! 6))"
proof -
  have a: "rect ([DataFrame q1_grid] ! 0)"
    by (simp add: rect_DataFrame)
  have b: "normalize_table 0 [DataFrame q1_grid] =
     (Inr (''Q1 Report'', 6), snd (normalize_table 0 [DataFrame q1_grid]))"
    using q1_normalized by (simp add: prod_eq_iff)
  show ?thesis
    using rows_match_columns [OF a b] a b by (simp add: list_all_iff)
qed

section \<open>The caller's frame\<close>

text \<open>
  C9. \<^verbatim>\<open>clean_tables\<close> leaves every frame that existed before the call as it was, so
  the frame \<^verbatim>\<open>df_origin\<close> that \<^verbatim>\<open>all_tables\<close> holds is unchanged, whether the call
  returns or raises: line 130 copies it and every later statement updates or builds
  frames allocated during the call. The same holds for the whole loop of lines 215 to
  219.
\<close>

theorem df_origin_unchanged:
  "take (length h) (fst (snd (clean_tables df_origin p first_run (h, sink)))) = h \<and>
   (df_origin < length h \<longrightarrow>
      fst (snd (clean_tables df_origin p first_run (h, sink))) ! df_origin = h ! df_origin) \<and>
   take (length h) (heap_of (cleaning_loop first_run all_tables (h, sink))) = h"
proof -
  from clean_tables_heap [of df_origin p first_run h sink] obtain ext where
    c: "fst (snd (clean_tables df_origin p first_run (h, sink))) = h @ ext" ..
  from cleaning_loop_heap [of first_run all_tables h sink] obtain ext' where
    l: "heap_of (cleaning_loop first_run all_tables (h, sink)) = h @ ext'" ..
  show ?thesis
    by (simp add: c l nth_append)
qed

theorem df_origin_unchanged_witness:
  "0 < length [DataFrame q1_grid] \<and>
   fst (snd (clean_tables 0 \<lparr>parent = ''reports'', name = ''q1.html''\<rparr> True
              ([DataFrame q1_grid], []))) ! 0 = DataFrame q1_grid"
  using df_origin_unchanged [of "[DataFrame q1_grid]" 0
      "\<lparr>parent = ''reports'', name = ''q1.html''\<rparr>" True "[]" "[]"]
  by simp

section \<open>Where \<^verbatim>\<open>None\<close> can stand\<close>

lemma none_at_end_padded: "none_at_end (map Str xs @ replicate n NoneV)"
  by (auto simp add: none_at_end_def nth_append)

lemma none_at_end_DataFrame: "r \<in> set (rows (DataFrame table_data)) \<Longrightarrow> none_at_end r"
  by (auto simp add: DataFrame_def Let_def none_at_end_padded)

lemma none_at_end_replace_blank:
  assumes "\<forall>r \<in> set (rows df). none_at_end r" and "r \<in> set (rows (replace_blank df))"
  shows "none_at_end r"
proof -
  from assms(2) obtain r0 where r0: "r0 \<in> set (rows df)"
    and r: "r = map (\<lambda>c. if c = Str [] then NaN else c) r0"
    by (auto simp add: replace_blank_def)
  from assms(1) r0 have "none_at_end r0" by simp
  then show ?thesis
    unfolding none_at_end_def r
    by (auto split: if_splits)
qed

lemma none_at_end_dropna_cols:
  assumes "rect df" and "\<forall>r \<in> set (rows df). none_at_end r"
    and "r \<in> set (rows (dropna_cols df))"
  shows "none_at_end r"
proof -
  let ?keep = "filter (\<lambda>j. list_ex (\<lambda>r. notna (r ! j)) (rows df)) [0..<length (columns df)]"
  from assms(3) obtain r0 where r0: "r0 \<in> set (rows df)" and r: "r = map (nth r0) ?keep"
    by (auto simp add: dropna_cols_def Let_def)
  from assms(1) r0 have len: "length r0 = length (columns df)"
    by (simp add: rect_iff)
  from assms(2) r0 have n: "none_at_end r0" by simp
  have s: "sorted_wrt (<) ?keep"
    by (simp add: sorted_wrt_filter)
  show ?thesis
    unfolding none_at_end_def
  proof (intro allI impI, elim conjE)
    fix j k
    assume jk: "j < k" and k: "k < length r" and j: "r ! j = NoneV"
    from k r have k': "k < length ?keep" by simp
    with jk s have lt: "?keep ! j < ?keep ! k"
      by (simp add: sorted_wrt_nth_less)
    from k' have "?keep ! k \<in> set ?keep" by (rule nth_mem)
    then have b: "?keep ! k < length r0"
      using len by simp
    from j jk k' r have "r0 ! (?keep ! j) = NoneV" by simp
    with n lt b have "r0 ! (?keep ! k) = NoneV"
      unfolding none_at_end_def by blast
    with k' r show "r ! k = NoneV" by simp
  qed
qed

lemma rows_dropna_rows: "set (rows (dropna_rows df)) \<subseteq> set (rows df)"
  by (auto simp add: dropna_rows_def Let_def dest: set_zip_rightD)

lemma rows_title_dropped: "set (rows (reset_index (iloc_from1 df))) \<subseteq> set (rows df)"
  by (auto simp add: reset_index_def iloc_from1_def dest: in_set_dropD)

text \<open>
  In the frame of a parsed table, as the merge pass of line 146 finds it (with or
  without the title row), a missing cell that stands directly before a text is
  \<^verbatim>\<open>np.nan\<close>, never \<^verbatim>\<open>None\<close>.
\<close>

lemma missing_before_text_is_nan:
  assumes "d1 = dropna_rows (dropna_cols (replace_blank (DataFrame table_data)))"
    and "r \<in> set (rows d1) \<or> r \<in> set (rows (reset_index (iloc_from1 d1)))"
    and "Suc j < length r" and "\<not> notna (r ! j)" and "notna (r ! Suc j)"
  shows "r ! j = NaN"
proof -
  let ?d0 = "replace_blank (DataFrame table_data)"
  have a: "\<forall>r \<in> set (rows ?d0). none_at_end r"
    using none_at_end_replace_blank [of "DataFrame table_data"] none_at_end_DataFrame
    by blast
  have "rect ?d0"
    by (simp add: rect_replace_blank rect_DataFrame)
  with a have "\<forall>r \<in> set (rows (dropna_cols ?d0)). none_at_end r"
    using none_at_end_dropna_cols by blast
  moreover from assms(1,2) have "r \<in> set (rows (dropna_cols ?d0))"
    using rows_dropna_rows rows_title_dropped by blast
  ultimately have "none_at_end r" by simp
  with assms(3,5) have "r ! j \<noteq> NoneV"
    unfolding none_at_end_def by (metis lessI notna.simps(3))
  with assms(4) show ?thesis
    by (cases "r ! j") simp_all
qed

end
